theory Spec2Isabelle
  imports Main
begin

section \<open>The query-result notification coordinator (QuerySubscription.ts)\<close>

text \<open>
  A shallow embedding of the class \<open>QuerySubscription\<close> of
  \<^verbatim>\<open>src/react/cache/QuerySubscription.ts\<close>. Result snapshots are JavaScript objects
  that the class mutates and shares with the engine, so they live in an explicit object
  store and are passed around by reference. Everything the class does to the outside
  (calling a listener, calling the dispose hook, calling the engine) is appended to a
  trace of effects, in program order. Listener bodies are opaque: a call is recorded, and
  a listener is assumed not to call back into the coordinator while it runs.
\<close>

subsection \<open>Values and snapshots\<close>

text \<open>
  The payload of a snapshot (\<open>data: TData\<close>, with \<open>TData = any\<close>), the variables of
  \<open>refetch\<close> and the options of \<open>fetchMore\<close> are JavaScript values. Numbers are
  integers here; an object is the list of its properties, written in one fixed order of
  the keys, so that two objects with the same properties are the same value.
\<close>

datatype jsval =
    JUndefined
  | JNull
  | JBool bool
  | JNum int
  | JStr string
  | JArr "jsval list"
  | JObj "(string \<times> jsval) list"

text \<open>JavaScript's ToBoolean, which decides the test \<open>this.result.data && ...\<close>.\<close>

fun truthy :: "jsval \<Rightarrow> bool" where
  "truthy JUndefined = False"
| "truthy JNull = False"
| "truthy (JBool b) = b"
| "truthy (JNum n) = (n \<noteq> 0)"
| "truthy (JStr s) = (s \<noteq> [])"
| "truthy (JArr xs) = True"
| "truthy (JObj kvs) = True"

text \<open>
  Modelled from the spec: the enum \<open>NetworkStatus\<close> of \<open>core/networkStatus\<close>, which is
  not among the sources. The coordinator itself names only \<open>NetworkStatus.error\<close>.
\<close>

datatype NetworkStatus =
    NS_loading
  | NS_setVariables
  | NS_fetchMore
  | NS_refetch
  | NS_poll
  | NS_ready
  | NS_error

text \<open>
  Modelled from the spec: \<open>isNetworkRequestSettled\<close> of \<open>core/networkStatus\<close>, which is
  not among the sources. A status is settled when the request is no longer in flight:
  success or error, not loading.
\<close>

fun isNetworkRequestSettled :: "NetworkStatus \<Rightarrow> bool" where
  "isNetworkRequestSettled NS_ready = True"
| "isNetworkRequestSettled NS_error = True"
| "isNetworkRequestSettled _ = False"

type_synonym ApolloError = string

text \<open>
  Modelled from the spec: the snapshot type \<open>ApolloQueryResult\<close> of \<open>core\<close>, which is
  not among the sources: \<open>{ data, error?, networkStatus, loading-ish flags, ... }\<close>. An
  optional field that is absent reads as \<open>undefined\<close> in JavaScript; here that is
  \<open>None\<close> (and \<open>JUndefined\<close> for \<open>data\<close>). The functions below are written over every
  extension of the record, so the fields the spec leaves open are carried along.
\<close>

record ApolloQueryResult =
  data :: jsval
  error :: "ApolloError option"
  loading :: bool
  networkStatus :: NetworkStatus

text \<open>
  Modelled from the spec: \<open>equal\<close> of the package \<open>@wry/equality\<close>, deep structural
  equality of two snapshots. On this value model, where a snapshot is the value of its
  fields, that is equality of the two records.
\<close>

definition equal :: "'x ApolloQueryResult_scheme \<Rightarrow> 'x ApolloQueryResult_scheme \<Rightarrow> bool" where
  "equal a b = (a = b)"

subsection \<open>The world outside the coordinator\<close>

text \<open>
  Identities: of a snapshot object (\<open>ref\<close>), of a listener function, of a dispose
  hook, of a promise, and of the handle that the engine's \<open>subscribe\<close> returns.
\<close>

type_synonym ref = nat
type_synonym listener = nat
type_synonym hook = nat
type_synonym promise = nat
type_synonym Subscription = nat

text \<open>A promise settles once: with the snapshot it resolves to, or with an error.\<close>

datatype pstate = Pending | Fulfilled ref | Rejected ApolloError

text \<open>
  The observers subscribed to the delivery stream (\<open>Concast\<close>): the one-shot observer that
  \<open>wrapWithCustomPromise\<close> creates for a promise, and any other observer.
\<close>

datatype observer = FirstChunk promise | Other nat

text \<open>
  What the code does to the outside: it calls a listener with a snapshot, calls the
  dispose hook, subscribes to or unsubscribes from the engine, calls the engine's
  \<open>refetch\<close> or \<open>fetchMore\<close>; and the stream hands a chunk or an error to an observer.
\<close>

datatype effect =
    ListenerCall listener ref
  | OnDisposeCall hook
  | Subscribe Subscription
  | Unsubscribe Subscription
  | EngineRefetch jsval
  | EngineFetchMore jsval
  | ObserverNext nat ref
  | ObserverError nat ApolloError

text \<open>
  The world: the object store with its allocation pointer, the promises with theirs, the
  observers of the delivery stream, the next subscription handle, and the trace.
\<close>

record 'x env =
  heap :: "ref \<Rightarrow> 'x ApolloQueryResult_scheme"
  next_ref :: ref
  promises :: "promise \<Rightarrow> pstate"
  next_promise :: promise
  concast_observers :: "observer list"
  next_sub :: Subscription
  trace :: "effect list"

text \<open>Creating an object: a fresh reference, and the store extended at it.\<close>

definition alloc :: "'x ApolloQueryResult_scheme \<Rightarrow> 'x env \<Rightarrow> ref \<times> 'x env" where
  "alloc v e = (next_ref e, e\<lparr>heap := (heap e)(next_ref e := v), next_ref := Suc (next_ref e)\<rparr>)"

subsection \<open>The class\<close>

text \<open>
  Modelled from the spec: the handle of the delivery stream (\<open>Concast\<close>, not among the
  sources), with its own promise, which settles once.
\<close>

record Concast =
  concast_promise :: promise

text \<open>
  What the class reads from the engine object \<open>observable\<close>: the value of
  \<open>getCurrentResult()\<close>, whether its query has a \<open>defer\<close> directive
  (\<open>hasDirectives(['defer'], observable.query)\<close>), and \<open>observable['concast']\<close> as it is
  after \<open>subscribe\<close>.
\<close>

record ObservableQuery =
  getCurrentResult :: ref
  query_has_defer :: bool
  concast :: "Concast option"

record Options =
  options_onDispose :: "hook option"

text \<open>
  The fields of the class. \<open>listeners\<close> is a JavaScript \<open>Set\<close>: its elements in
  insertion order, each once. \<open>onDispose\<close> is \<open>None\<close> for the no-op method of the class
  and \<open>Some h\<close> once the constructor has replaced it by the option.
\<close>

record QuerySubscription =
  result :: ref
  promise :: promise
  observable :: ObservableQuery
  subscription :: Subscription
  listeners :: "listener list"
  onDispose :: "hook option"

datatype failure = InvariantError

text \<open>\<open>Set.prototype.add\<close> and \<open>Set.prototype.delete\<close> on the insertion-ordered set.\<close>

definition set_add :: "'a \<Rightarrow> 'a list \<Rightarrow> 'a list" where
  "set_add x xs = (if x \<in> set xs then xs else xs @ [x])"

definition set_delete :: "'a \<Rightarrow> 'a list \<Rightarrow> 'a list" where
  "set_delete x xs = removeAll x xs"

text \<open>\<open>deliver\<close>: \<open>this.listeners.forEach((listener) => listener(result))\<close>.\<close>

definition deliver :: "QuerySubscription \<Rightarrow> ref \<Rightarrow> 'x env \<Rightarrow> 'x env" where
  "deliver this r e = e\<lparr>trace := trace e @ map (\<lambda>l. ListenerCall l r) (listeners this)\<rparr>"

text \<open>
  The first statement of \<open>handleNext\<close> (the stale-error masking): the assignment
  \<open>result.data = this.result.data\<close> writes to the object the caller passed.
\<close>

definition backfill :: "QuerySubscription \<Rightarrow> ref \<Rightarrow> 'x env \<Rightarrow> 'x env" where
  "backfill this r e =
     (if isNetworkRequestSettled (networkStatus (heap e r)) \<and>
         truthy (data (heap e (result this))) \<and>
         data (heap e r) = JUndefined
      then e\<lparr>heap := (heap e)(r := (heap e r)\<lparr>data := data (heap e (result this))\<rparr>)\<rparr>
      else e)"

text \<open>\<open>handleNext\<close>: the comparison and the delivery see the store after the assignment.\<close>

definition handleNext :: "QuerySubscription \<times> 'x env \<Rightarrow> ref \<Rightarrow> QuerySubscription \<times> 'x env" where
  "handleNext s r =
     (let this = fst s;
          e1 = backfill this r (snd s)
      in if \<not> equal (heap e1 (result this)) (heap e1 r)
         then (let this1 = this\<lparr>result := r\<rparr> in (this1, deliver this1 r e1))
         else (this, e1))"

text \<open>
  \<open>handleError\<close>: the object literal \<open>{ ...this.result, error, networkStatus }\<close> is a
  new object.
\<close>

definition handleError :: "QuerySubscription \<times> 'x env \<Rightarrow> ApolloError \<Rightarrow> QuerySubscription \<times> 'x env" where
  "handleError s err =
     (let this = fst s;
          (r, e1) = alloc ((heap (snd s) (result this))\<lparr>error := Some err, networkStatus := NS_error\<rparr>) (snd s);
          this1 = this\<lparr>result := r\<rparr>
      in (this1, deliver this1 r e1))"

text \<open>
  \<open>listen\<close> returns a closure over \<open>this\<close> and \<open>listener\<close>; \<open>Unregister l\<close> is that
  closure and \<open>call_unregister\<close> its body.
\<close>

datatype unregister = Unregister listener

definition listen :: "QuerySubscription \<times> 'x env \<Rightarrow> listener \<Rightarrow> unregister \<times> QuerySubscription \<times> 'x env" where
  "listen s l = (Unregister l, (fst s)\<lparr>listeners := set_add l (listeners (fst s))\<rparr>, snd s)"

fun call_unregister :: "unregister \<Rightarrow> QuerySubscription \<times> 'x env \<Rightarrow> QuerySubscription \<times> 'x env" where
  "call_unregister (Unregister l) s = ((fst s)\<lparr>listeners := set_delete l (listeners (fst s))\<rparr>, snd s)"

text \<open>
  JavaScript promises: \<open>new Promise\<close> creates a pending promise, and of the calls of
  its \<open>resolve\<close> and \<open>reject\<close> only the first settles it.
\<close>

definition new_promise :: "'x env \<Rightarrow> promise \<times> 'x env" where
  "new_promise e =
     (next_promise e,
      e\<lparr>promises := (promises e)(next_promise e := Pending), next_promise := Suc (next_promise e)\<rparr>)"

definition resolve :: "promise \<Rightarrow> ref \<Rightarrow> 'x env \<Rightarrow> 'x env" where
  "resolve p v e =
     (if promises e p = Pending then e\<lparr>promises := (promises e)(p := Fulfilled v)\<rparr> else e)"

definition reject :: "promise \<Rightarrow> ApolloError \<Rightarrow> 'x env \<Rightarrow> 'x env" where
  "reject p err e =
     (if promises e p = Pending then e\<lparr>promises := (promises e)(p := Rejected err)\<rparr> else e)"

text \<open>
  Modelled from the spec: \<open>refetch\<close> of the engine (\<open>ObservableQuery\<close>, not among the
  sources), which returns a fresh promise for that operation's outcome.
\<close>

definition observable_refetch :: "jsval \<Rightarrow> 'x env \<Rightarrow> promise \<times> 'x env" where
  "observable_refetch variables e =
     (let (p, e1) = new_promise e in (p, e1\<lparr>trace := trace e1 @ [EngineRefetch variables]\<rparr>))"

text \<open>
  Modelled from the spec: \<open>fetchMore\<close> of the engine (\<open>ObservableQuery\<close>, not among
  the sources), which returns a fresh promise for that operation's outcome.
\<close>

definition observable_fetchMore :: "jsval \<Rightarrow> 'x env \<Rightarrow> promise \<times> 'x env" where
  "observable_fetchMore options e =
     (let (p, e1) = new_promise e in (p, e1\<lparr>trace := trace e1 @ [EngineFetchMore options]\<rparr>))"

text \<open>
  \<open>refetch\<close> and \<open>fetchMore\<close>: the assignment to \<open>this.promise\<close>, then
  \<open>return this.promise\<close>.
\<close>

definition refetch :: "QuerySubscription \<times> 'x env \<Rightarrow> jsval \<Rightarrow> promise \<times> QuerySubscription \<times> 'x env" where
  "refetch s variables =
     (let (p, e1) = observable_refetch variables (snd s);
          this1 = (fst s)\<lparr>promise := p\<rparr>
      in (promise this1, this1, e1))"

definition fetchMore :: "QuerySubscription \<times> 'x env \<Rightarrow> jsval \<Rightarrow> promise \<times> QuerySubscription \<times> 'x env" where
  "fetchMore s options =
     (let (p, e1) = observable_fetchMore options (snd s);
          this1 = (fst s)\<lparr>promise := p\<rparr>
      in (promise this1, this1, e1))"

text \<open>
  \<open>this.onDispose()\<close>: the no-op method of the class, or the hook of the options.
\<close>

definition call_onDispose :: "QuerySubscription \<Rightarrow> 'x env \<Rightarrow> 'x env" where
  "call_onDispose this e =
     (case onDispose this of
        None \<Rightarrow> e
      | Some h \<Rightarrow> e\<lparr>trace := trace e @ [OnDisposeCall h]\<rparr>)"

text \<open>\<open>dispose\<close>: \<open>this.subscription.unsubscribe()\<close>, then \<open>this.onDispose()\<close>.\<close>

definition dispose :: "QuerySubscription \<times> 'x env \<Rightarrow> QuerySubscription \<times> 'x env" where
  "dispose s =
     (let this = fst s;
          e1 = (snd s)\<lparr>trace := trace (snd s) @ [Unsubscribe (subscription this)]\<rparr>
      in (this, call_onDispose this e1))"

subsection \<open>The delivery stream and \<open>wrapWithCustomPromise\<close>\<close>

text \<open>
  Modelled from the spec: \<open>subscribe\<close> of the delivery stream (\<open>Concast\<close>, not among
  the sources), which can be subscribed to by several independent observers. The world
  holds the observers of the one stream of the query. Subscribing registers the observer;
  it emits nothing to it by itself.
\<close>

definition concast_subscribe :: "observer \<Rightarrow> 'x env \<Rightarrow> 'x env" where
  "concast_subscribe ob e = e\<lparr>concast_observers := set_add ob (concast_observers e)\<rparr>"

text \<open>
  Modelled from the spec: \<open>unsubscribe\<close> of the subscription that \<open>subscribe\<close> of the
  delivery stream returned for an observer.
\<close>

definition concast_unsubscribe :: "observer \<Rightarrow> 'x env \<Rightarrow> 'x env" where
  "concast_unsubscribe ob e = e\<lparr>concast_observers := set_delete ob (concast_observers e)\<rparr>"

text \<open>
  \<open>wrapWithCustomPromise\<close>: the executor of \<open>new Promise\<close> runs at once and subscribes
  the observer \<open>{ next, error: reject }\<close>. The two functions after it are the bodies of
  that observer's \<open>next\<close> (\<open>resolve(value); subscription.unsubscribe()\<close>) and
  \<open>error\<close>.
\<close>

definition wrapWithCustomPromise :: "Concast \<Rightarrow> 'x env \<Rightarrow> promise \<times> 'x env" where
  "wrapWithCustomPromise c e =
     (let (p, e1) = new_promise e in (p, concast_subscribe (FirstChunk p) e1))"

definition firstChunk_next :: "promise \<Rightarrow> ref \<Rightarrow> 'x env \<Rightarrow> 'x env" where
  "firstChunk_next p v e = concast_unsubscribe (FirstChunk p) (resolve p v e)"

definition firstChunk_error :: "promise \<Rightarrow> ApolloError \<Rightarrow> 'x env \<Rightarrow> 'x env" where
  "firstChunk_error p err e = reject p err e"

text \<open>
  Modelled from the spec: the delivery stream handing a chunk to one observer. What an
  observer other than the one-shot observer does with it is recorded only.
\<close>

fun observer_next :: "ref \<Rightarrow> observer \<Rightarrow> 'x env \<Rightarrow> 'x env" where
  "observer_next v (FirstChunk p) e = firstChunk_next p v e"
| "observer_next v (Other i) e = e\<lparr>trace := trace e @ [ObserverNext i v]\<rparr>"

text \<open>Modelled from the spec: the delivery stream handing an error to one observer.\<close>

fun observer_error :: "ApolloError \<Rightarrow> observer \<Rightarrow> 'x env \<Rightarrow> 'x env" where
  "observer_error err (FirstChunk p) e = firstChunk_error p err e"
| "observer_error err (Other i) e = e\<lparr>trace := trace e @ [ObserverError i err]\<rparr>"

text \<open>
  Modelled from the spec: the delivery stream emitting a chunk to each of the observers
  subscribed at that moment.
\<close>

definition concast_next :: "ref \<Rightarrow> 'x env \<Rightarrow> 'x env" where
  "concast_next v e = fold (observer_next v) (concast_observers e) e"

text \<open>
  Modelled from the spec: the delivery stream emitting an error to each of the observers
  subscribed at that moment.
\<close>

definition concast_error :: "ApolloError \<Rightarrow> 'x env \<Rightarrow> 'x env" where
  "concast_error err e = fold (observer_error err) (concast_observers e) e"

subsection \<open>The constructor\<close>

text \<open>
  Modelled from the spec: \<open>subscribe\<close> of the engine, which registers the two handlers
  and returns the handle of the subscription.
\<close>

definition observable_subscribe :: "'x env \<Rightarrow> Subscription \<times> 'x env" where
  "observable_subscribe e =
     (next_sub e, e\<lparr>next_sub := Suc (next_sub e), trace := trace e @ [Subscribe (next_sub e)]\<rparr>)"

text \<open>
  The constructor. \<open>invariant(observable['concast'], ...)\<close> throws when the engine has
  no delivery stream after subscribing.
\<close>

definition constructor ::
  "ObservableQuery \<Rightarrow> Options \<Rightarrow> 'x env \<Rightarrow> failure + QuerySubscription \<times> 'x env" where
  "constructor obs options e =
     (let r = getCurrentResult obs;
          (sub, e1) = observable_subscribe e
      in case concast obs of
           None \<Rightarrow> Inl InvariantError
         | Some c \<Rightarrow>
             (let (p, e2) = (if query_has_defer obs then wrapWithCustomPromise c e1
                             else (concast_promise c, e1))
              in Inr (\<lparr>result = r, promise = p, observable = obs, subscription = sub,
                       listeners = [], onDispose = options_onDispose options\<rparr>, e2)))"

subsection \<open>Raw events and observations\<close>

text \<open>The two handlers the constructor passes to the engine, driven by raw events.\<close>

datatype raw_event = Next ref | Error ApolloError

fun handle :: "QuerySubscription \<times> 'x env \<Rightarrow> raw_event \<Rightarrow> QuerySubscription \<times> 'x env" where
  "handle s (Next r) = handleNext s r"
| "handle s (Error err) = handleError s err"

text \<open>The effects a step added to the trace, and the listener and hook calls among effects.\<close>

definition added :: "'x env \<Rightarrow> 'x env \<Rightarrow> effect list" where
  "added e e' = drop (length (trace e)) (trace e')"

fun listener_calls :: "effect list \<Rightarrow> (listener \<times> ref) list" where
  "listener_calls [] = []"
| "listener_calls (ListenerCall l r # es) = (l, r) # listener_calls es"
| "listener_calls (_ # es) = listener_calls es"

fun hook_calls :: "effect list \<Rightarrow> hook list" where
  "hook_calls [] = []"
| "hook_calls (OnDisposeCall h # es) = h # hook_calls es"
| "hook_calls (_ # es) = hook_calls es"

subsection \<open>A concrete scenario\<close>

text \<open>
  A store of four snapshots: object 0 is loading and holds data, object 1 is a settled
  error without data, object 2 has the same field values as object 0, and object 3 is a
  settled error that holds data. The coordinator \<open>this0\<close> holds object 0, has the two
  listeners 10 and 11 and the dispose hook 7.
\<close>

definition D0 :: jsval where
  "D0 = JObj [(''greeting'', JStr ''hello'')]"

definition heap0 :: "ref \<Rightarrow> ApolloQueryResult" where
  "heap0 =
     (\<lambda>_. \<lparr>data = JUndefined, error = None, loading = False, networkStatus = NS_ready\<rparr>)
       (0 := \<lparr>data = D0, error = None, loading = True, networkStatus = NS_loading\<rparr>,
        1 := \<lparr>data = JUndefined, error = Some ''E1'', loading = False, networkStatus = NS_error\<rparr>,
        2 := \<lparr>data = D0, error = None, loading = True, networkStatus = NS_loading\<rparr>,
        3 := \<lparr>data = D0, error = Some ''E1'', loading = False, networkStatus = NS_error\<rparr>)"

definition env0 :: "unit env" where
  "env0 = \<lparr>heap = heap0, next_ref = 4, promises = (\<lambda>_. Pending), next_promise = 1,
            concast_observers = [Other 0], next_sub = 1, trace = []\<rparr>"

definition obs0 :: "bool \<Rightarrow> ObservableQuery" where
  "obs0 deferred =
     \<lparr>getCurrentResult = 0, query_has_defer = deferred, concast = Some \<lparr>concast_promise = 0\<rparr>\<rparr>"

definition this0 :: QuerySubscription where
  "this0 = \<lparr>result = 0, promise = 0, observable = obs0 False, subscription = 0,
             listeners = [10, 11], onDispose = Some 7\<rparr>"

section \<open>Properties\<close>

subsection \<open>Effects and counting\<close>

lemma listener_calls_append:
  "listener_calls (xs @ ys) = listener_calls xs @ listener_calls ys"
  by (induction xs rule: listener_calls.induct) simp_all

lemma listener_calls_map:
  "listener_calls (map (\<lambda>l. ListenerCall l r) ls) = map (\<lambda>l. (l, r)) ls"
  by (induction ls) simp_all

lemma count_list_map_call:
  "count_list (map (\<lambda>x. ListenerCall x r) ls) (ListenerCall l r) = count_list ls l"
  by (induction ls) simp_all

lemma count_list_distinct: "distinct ls \<Longrightarrow> l \<in> set ls \<Longrightarrow> count_list ls l = 1"
  by (induction ls) (auto simp: count_list_0_iff)

lemma count_list_calls:
  "distinct ls \<Longrightarrow> l \<in> set ls \<Longrightarrow>
   count_list (map (\<lambda>x. ListenerCall x r) ls) (ListenerCall l r) = 1"
  by (simp add: count_list_map_call count_list_distinct)

subsection \<open>Result delivery: \<open>handleNext\<close>\<close>

lemma backfill_trace: "trace (backfill this r e) = trace e"
  by (simp add: backfill_def)

lemma backfill_next_ref: "next_ref (backfill this r e) = next_ref e"
  by (simp add: backfill_def)

lemma backfill_current: "heap (backfill this r e) (result this) = heap e (result this)"
  by (auto simp: backfill_def)

lemma backfill_other: "a \<noteq> r \<Longrightarrow> heap (backfill this r e) a = heap e a"
  by (simp add: backfill_def)

lemma handleNext_equal:
  "equal (heap (backfill this r e) (result this)) (heap (backfill this r e) r) \<Longrightarrow>
   handleNext (this, e) r = (this, backfill this r e)"
  by (simp add: handleNext_def Let_def)

lemma handleNext_differ:
  "\<not> equal (heap (backfill this r e) (result this)) (heap (backfill this r e) r) \<Longrightarrow>
   handleNext (this, e) r =
     (this\<lparr>result := r\<rparr>, deliver (this\<lparr>result := r\<rparr>) r (backfill this r e))"
  by (simp add: handleNext_def Let_def)

text \<open>
  C1. A result that \<open>handleNext\<close> receives and that, after the possible backfill, is
  structurally equal to the current result is discarded: the coordinator is unchanged,
  the current result object keeps its contents and nothing is called. Otherwise the
  current result becomes the new result and the effects of the call are exactly one call
  of each registered listener, with the new result.
\<close>

theorem handleNext_dedup:
  assumes "distinct (listeners this)"
  shows "let e1 = backfill this r e; s' = handleNext (this, e) r in
           (equal (heap e1 (result this)) (heap e1 r) \<longrightarrow>
              fst s' = this \<and>
              heap (snd s') (result this) = heap e (result this) \<and>
              added e (snd s') = []) \<and>
           (\<not> equal (heap e1 (result this)) (heap e1 r) \<longrightarrow>
              result (fst s') = r \<and>
              added e (snd s') = map (\<lambda>l. ListenerCall l r) (listeners this) \<and>
              (\<forall>l \<in> set (listeners this).
                 count_list (added e (snd s')) (ListenerCall l r) = 1))"
proof (cases "equal (heap (backfill this r e) (result this)) (heap (backfill this r e) r)")
  case True
  then show ?thesis
    by (simp add: Let_def handleNext_equal backfill_current added_def backfill_trace)
next
  case False
  then show ?thesis
    using assms
    by (simp add: Let_def handleNext_differ added_def deliver_def backfill_trace count_list_calls)
qed

text \<open>
  In the scenario, object 2 equals the current object 0 and is discarded; object 3
  differs and reaches both listeners once; delivered a second time in a row it is
  discarded, so the two deliveries make one fan-out.
\<close>

theorem handleNext_dedup_witness:
  "distinct (listeners this0) \<and>
   equal (heap (backfill this0 2 env0) (result this0)) (heap (backfill this0 2 env0) 2) \<and>
   handleNext (this0, env0) 2 = (this0, env0) \<and>
   \<not> equal (heap (backfill this0 3 env0) (result this0)) (heap (backfill this0 3 env0) 3) \<and>
   result (fst (handleNext (this0, env0) 3)) = 3 \<and>
   added env0 (snd (handleNext (this0, env0) 3)) = [ListenerCall 10 3, ListenerCall 11 3] \<and>
   added env0 (snd (handleNext (handleNext (this0, env0) 3) 3)) = [ListenerCall 10 3, ListenerCall 11 3]"
  using handleNext_dedup [of this0 2 env0] handleNext_dedup [of this0 3 env0]
  by (simp add: Let_def this0_def env0_def heap0_def equal_def backfill_def handleNext_def
      deliver_def added_def D0_def)

lemma backfill_fires:
  assumes "isNetworkRequestSettled (networkStatus (heap e r))"
    and "truthy (data (heap e (result this)))"
    and "data (heap e r) = JUndefined"
  shows "backfill this r e = e\<lparr>heap := (heap e)(r := (heap e r)\<lparr>data := data (heap e (result this))\<rparr>)\<rparr>"
    and "r \<noteq> result this"
  using assms by (auto simp: backfill_def)

text \<open>
  C2. When the incoming result has a settled status and no data while the current result
  has (truthy) data, the incoming object's \<open>data\<close> becomes the current result's
  \<open>data\<close>, its other fields kept; the comparison that follows is made with the
  backfilled snapshot, and the listeners, when called, are called with the object that
  holds it.
\<close>

theorem handleNext_backfill:
  assumes "isNetworkRequestSettled (networkStatus (heap e r))"
    and "truthy (data (heap e (result this)))"
    and "data (heap e r) = JUndefined"
  shows "let b = (heap e r)\<lparr>data := data (heap e (result this))\<rparr>; s' = handleNext (this, e) r in
           heap (snd s') r = b \<and>
           data (heap (snd s') r) = data (heap e (result this)) \<and>
           (equal (heap e (result this)) b \<longrightarrow> fst s' = this \<and> added e (snd s') = []) \<and>
           (\<not> equal (heap e (result this)) b \<longrightarrow>
              result (fst s') = r \<and>
              listener_calls (added e (snd s')) = map (\<lambda>l. (l, r)) (listeners this))"
proof -
  let ?b = "(heap e r)\<lparr>data := data (heap e (result this))\<rparr>"
  let ?e1 = "backfill this r e"
  have e1: "?e1 = e\<lparr>heap := (heap e)(r := ?b)\<rparr>" and ne: "r \<noteq> result this"
    using backfill_fires [OF assms] by simp_all
  have cur: "heap ?e1 (result this) = heap e (result this)"
    by (rule backfill_current)
  have new: "heap ?e1 r = ?b"
    by (simp add: e1)
  show ?thesis
  proof (cases "equal (heap e (result this)) ?b")
    case True
    then have "handleNext (this, e) r = (this, ?e1)"
      by (simp add: handleNext_equal cur new)
    with True show ?thesis
      by (simp add: Let_def new added_def backfill_trace)
  next
    case False
    then have "handleNext (this, e) r = (this\<lparr>result := r\<rparr>, deliver (this\<lparr>result := r\<rparr>) r ?e1)"
      by (simp add: handleNext_differ cur new)
    with False show ?thesis
      by (simp add: Let_def new added_def deliver_def backfill_trace listener_calls_map)
  qed
qed

text \<open>
  The example of the specification: the current result is \<open>{data: D, status: loading}\<close>,
  the incoming one \<open>{data: undefined, status: error}\<close>; the listeners receive
  \<open>{data: D, status: error}\<close>.
\<close>

theorem handleNext_backfill_witness:
  "isNetworkRequestSettled (networkStatus (heap env0 1)) \<and>
   truthy (data (heap env0 (result this0))) \<and>
   data (heap env0 1) = JUndefined \<and>
   heap env0 (result this0) = \<lparr>data = D0, error = None, loading = True, networkStatus = NS_loading\<rparr> \<and>
   heap env0 1 = \<lparr>data = JUndefined, error = Some ''E1'', loading = False, networkStatus = NS_error\<rparr> \<and>
   heap (snd (handleNext (this0, env0) 1)) 1 = \<lparr>data = D0, error = Some ''E1'', loading = False, networkStatus = NS_error\<rparr> \<and>
   result (fst (handleNext (this0, env0) 1)) = 1 \<and>
   listener_calls (added env0 (snd (handleNext (this0, env0) 1))) = [(10, 1), (11, 1)]"
  using handleNext_backfill [of env0 1 this0]
  by (simp add: Let_def this0_def env0_def heap0_def equal_def D0_def)

text \<open>
  C10 (as amended). Under the backfill condition the store changes at the incoming
  reference only and no object is created: the object the caller passed is the one that
  is modified, and it is a different object from the current result. What happens to it
  next is decided by the comparison. When the backfilled snapshot differs from the
  current result, it is this reference that is stored and handed to every listener. When
  it is equal, the object stays modified and is discarded: the coordinator keeps the
  reference it had and nothing is called.
\<close>

theorem handleNext_mutates_in_place:
  assumes "isNetworkRequestSettled (networkStatus (heap e r))"
    and "truthy (data (heap e (result this)))"
    and "data (heap e r) = JUndefined"
  shows "let b = (heap e r)\<lparr>data := data (heap e (result this))\<rparr>; s' = handleNext (this, e) r in
           heap (snd s') = (heap e)(r := b) \<and>
           next_ref (snd s') = next_ref e \<and>
           r \<noteq> result this \<and>
           (\<not> equal (heap e (result this)) b \<longrightarrow>
              result (fst s') = r \<and>
              added e (snd s') = map (\<lambda>l. ListenerCall l r) (listeners this)) \<and>
           (equal (heap e (result this)) b \<longrightarrow>
              fst s' = this \<and>
              result (fst s') \<noteq> r \<and>
              added e (snd s') = [])"
proof -
  let ?b = "(heap e r)\<lparr>data := data (heap e (result this))\<rparr>"
  let ?e1 = "backfill this r e"
  have e1: "?e1 = e\<lparr>heap := (heap e)(r := ?b)\<rparr>" and ne: "r \<noteq> result this"
    using backfill_fires [OF assms] by simp_all
  have cmp: "equal (heap ?e1 (result this)) (heap ?e1 r) = equal (heap e (result this)) ?b"
    using ne by (simp add: e1)
  show ?thesis
  proof (cases "equal (heap e (result this)) ?b")
    case True
    then have "handleNext (this, e) r = (this, ?e1)"
      by (simp add: handleNext_equal cmp)
    with True ne show ?thesis
      by (simp add: Let_def e1 added_def)
  next
    case False
    then have "handleNext (this, e) r = (this\<lparr>result := r\<rparr>, deliver (this\<lparr>result := r\<rparr>) r ?e1)"
      by (simp add: handleNext_differ cmp)
    with False ne show ?thesis
      by (simp add: Let_def e1 added_def deliver_def)
  qed
qed

theorem handleNext_mutates_in_place_witness:
  "isNetworkRequestSettled (networkStatus (heap env0 1)) \<and>
   truthy (data (heap env0 (result this0))) \<and>
   data (heap env0 1) = JUndefined \<and>
   heap (snd (handleNext (this0, env0) 1)) = heap0(1 := (heap0 1)\<lparr>data := D0\<rparr>) \<and>
   next_ref (snd (handleNext (this0, env0) 1)) = 4 \<and>
   result (fst (handleNext (this0, env0) 1)) = 1 \<and>
   added env0 (snd (handleNext (this0, env0) 1)) = [ListenerCall 10 1, ListenerCall 11 1]"
  using handleNext_mutates_in_place [of env0 1 this0]
  by (simp add: Let_def this0_def env0_def heap0_def equal_def D0_def)

text \<open>
  C10 as stated fails: the current result is object 3, a settled error that holds the
  data \<open>D0\<close>, and the incoming object 1 is the same error without data. The three
  conditions hold and object 1 receives the data, but it then equals the current result:
  the coordinator keeps object 3 and no listener is called.
\<close>

theorem handleNext_mutated_then_discarded_counterexample:
  "isNetworkRequestSettled (networkStatus (heap env0 1)) \<and>
   truthy (data (heap env0 (result (this0\<lparr>result := 3\<rparr>)))) \<and>
   data (heap env0 1) = JUndefined \<and>
   data (heap (snd (handleNext (this0\<lparr>result := 3\<rparr>, env0) 1)) 1) = D0 \<and>
   result (fst (handleNext (this0\<lparr>result := 3\<rparr>, env0) 1)) = 3 \<and>
   added env0 (snd (handleNext (this0\<lparr>result := 3\<rparr>, env0) 1)) = []"
  by (simp add: handleNext_def backfill_def equal_def deliver_def added_def Let_def
      this0_def env0_def heap0_def D0_def)


subsection \<open>Error delivery: \<open>handleError\<close>\<close>

lemma handleError_fst: "fst (handleError (this, e) err) = this\<lparr>result := next_ref e\<rparr>"
  by (simp add: handleError_def alloc_def Let_def)

lemma handleError_snd:
  "snd (handleError (this, e) err) =
     e\<lparr>heap := (heap e)(next_ref e := (heap e (result this))\<lparr>error := Some err, networkStatus := NS_error\<rparr>),
       next_ref := Suc (next_ref e),
       trace := trace e @ map (\<lambda>l. ListenerCall l (next_ref e)) (listeners this)\<rparr>"
  by (simp add: handleError_def alloc_def Let_def deliver_def)

text \<open>
  C3. \<open>handleError\<close> makes no comparison: whatever the synthesized result is, it
  replaces the current result (it is a new object) and the effects of the call are
  exactly one call of each registered listener, with it.
\<close>

theorem handleError_always_delivers:
  assumes "result this < next_ref e" and "distinct (listeners this)"
  shows "let s' = handleError (this, e) err; r' = result (fst s') in
           r' \<noteq> result this \<and>
           r' = next_ref e \<and>
           added e (snd s') = map (\<lambda>l. ListenerCall l r') (listeners this) \<and>
           (\<forall>l \<in> set (listeners this). count_list (added e (snd s')) (ListenerCall l r') = 1)"
  using assms
  by (simp add: Let_def handleError_fst handleError_snd added_def count_list_calls)

text \<open>
  The current result is object 3, which already holds the error \<open>E1\<close> and the error
  status: the synthesized result is structurally equal to it, and is delivered.
\<close>

theorem handleError_always_delivers_witness:
  "result (this0\<lparr>result := 3\<rparr>) < next_ref env0 \<and> distinct (listeners (this0\<lparr>result := 3\<rparr>)) \<and>
   equal (heap (snd (handleError (this0\<lparr>result := 3\<rparr>, env0) ''E1'')) 4) (heap env0 3) \<and>
   result (fst (handleError (this0\<lparr>result := 3\<rparr>, env0) ''E1'')) = 4 \<and>
   added env0 (snd (handleError (this0\<lparr>result := 3\<rparr>, env0) ''E1'')) = [ListenerCall 10 4, ListenerCall 11 4]"
  using handleError_always_delivers [of "this0\<lparr>result := 3\<rparr>" env0 "''E1''"]
  by (simp add: Let_def this0_def env0_def heap0_def equal_def handleError_snd)

text \<open>
  C4. The result that \<open>handleError\<close> stores and fans out is a copy of the previous
  current result with \<open>error\<close> set to the given error and \<open>networkStatus\<close> set to the
  error status; every other field, also of an extension of the snapshot type, is that of
  the previous result, and no other object of the store changes.
\<close>

theorem handleError_shallow_copy:
  "let s' = handleError (this, e) err; r' = result (fst s'); old = heap e (result this) in
     heap (snd s') r' = old\<lparr>error := Some err, networkStatus := NS_error\<rparr> \<and>
     error (heap (snd s') r') = Some err \<and>
     networkStatus (heap (snd s') r') = NS_error \<and>
     data (heap (snd s') r') = data old \<and>
     loading (heap (snd s') r') = loading old \<and>
     ApolloQueryResult.more (heap (snd s') r') = ApolloQueryResult.more old \<and>
     listener_calls (added e (snd s')) = map (\<lambda>l. (l, r')) (listeners this) \<and>
     (\<forall>a. a \<noteq> next_ref e \<longrightarrow> heap (snd s') a = heap e a)"
  by (simp add: Let_def handleError_fst handleError_snd added_def listener_calls_map)

theorem handleError_shallow_copy_witness:
  "heap (snd (handleError (this0, env0) ''E2'')) 4 =
     \<lparr>data = D0, error = Some ''E2'', loading = True, networkStatus = NS_error\<rparr> \<and>
   listener_calls (added env0 (snd (handleError (this0, env0) ''E2''))) = [(10, 4), (11, 4)] \<and>
   heap (snd (handleError (this0, env0) ''E2'')) 0 = heap env0 0"
  using handleError_shallow_copy [of this0 env0 "''E2''"]
  by (simp add: Let_def this0_def env0_def heap0_def handleError_fst)

subsection \<open>Listeners, \<open>refetch\<close> and \<open>fetchMore\<close>\<close>

lemma set_add_set: "set (set_add x xs) = insert x (set xs)"
  by (auto simp: set_add_def)

lemma set_add_distinct: "distinct xs \<Longrightarrow> distinct (set_add x xs)"
  by (simp add: set_add_def)

lemma set_delete_filter: "set_delete x xs = filter (\<lambda>y. y \<noteq> x) xs"
  by (induction xs) (simp_all add: set_delete_def)

lemma set_delete_distinct: "distinct xs \<Longrightarrow> distinct (set_delete x xs)"
  by (simp add: set_delete_filter)

lemma set_delete_twice: "set_delete x (set_delete x xs) = set_delete x xs"
  by (simp add: set_delete_def)

text \<open>
  C7. \<open>listen\<close> adds the callback to the set, where it then occurs once, and changes
  nothing else. The function it returns, called in any later state, removes that callback
  and keeps the others in their order; a delivery after it calls the others and not the
  removed one; called again, the function changes nothing. It has no failing path.
\<close>

theorem listen_unregister:
  assumes "distinct (listeners this)"
  shows "let u = fst (listen (this, e) l); s1 = snd (listen (this, e) l) in
           fst s1 = this\<lparr>listeners := set_add l (listeners this)\<rparr> \<and>
           snd s1 = e \<and>
           set (listeners (fst s1)) = insert l (set (listeners this)) \<and>
           distinct (listeners (fst s1)) \<and>
           count_list (listeners (fst s1)) l = 1 \<and>
           (\<forall>s2. let s3 = call_unregister u s2 in
              fst s3 = (fst s2)\<lparr>listeners := filter (\<lambda>x. x \<noteq> l) (listeners (fst s2))\<rparr> \<and>
              snd s3 = snd s2 \<and>
              (\<forall>err. listener_calls (added (snd s3) (snd (handleError s3 err))) =
                 map (\<lambda>x. (x, next_ref (snd s3))) (filter (\<lambda>x. x \<noteq> l) (listeners (fst s2)))) \<and>
              call_unregister u s3 = s3)"
proof -
  have d: "distinct (set_add l (listeners this))"
    using assms by (rule set_add_distinct)
  have c: "count_list (set_add l (listeners this)) l = 1"
    using d by (simp add: count_list_distinct set_add_set)
  show ?thesis
    using d c
    by (simp add: Let_def listen_def set_add_set set_delete_filter handleError_snd added_def
        listener_calls_map)
qed

theorem listen_unregister_witness:
  "distinct (listeners this0) \<and>
   listeners (fst (snd (listen (this0, env0) 12))) = [10, 11, 12] \<and>
   listeners (fst (snd (listen (this0, env0) 10))) = [10, 11] \<and>
   listeners (fst (call_unregister (fst (listen (this0, env0) 12)) (snd (listen (this0, env0) 12)))) = [10, 11] \<and>
   listeners (fst (call_unregister (fst (listen (this0, env0) 10)) (snd (listen (this0, env0) 10)))) = [11] \<and>
   listener_calls (added env0 (snd (handleError
       (call_unregister (fst (listen (this0, env0) 10)) (snd (listen (this0, env0) 10))) ''E2''))) = [(11, 4)]"
  using listen_unregister [of this0 env0 12] listen_unregister [of this0 env0 10]
  by (simp add: Let_def this0_def env0_def listen_def set_add_def set_delete_def handleError_snd
      added_def)

text \<open>
  C6. \<open>refetch\<close> and \<open>fetchMore\<close> call the engine's operation, store the promise it
  returns in \<open>promise\<close> and return the stored promise; no other field of the
  coordinator and no snapshot changes, and the only effect is the engine call.
\<close>

theorem refetch_fetchMore_promise:
  "(let p = fst (refetch (this, e) variables); s' = snd (refetch (this, e) variables) in
      p = fst (observable_refetch variables e) \<and>
      snd s' = snd (observable_refetch variables e) \<and>
      fst s' = this\<lparr>promise := p\<rparr> \<and>
      promise (fst s') = p \<and>
      result (fst s') = result this \<and>
      listeners (fst s') = listeners this \<and>
      subscription (fst s') = subscription this \<and>
      heap (snd s') = heap e \<and>
      added e (snd s') = [EngineRefetch variables]) \<and>
   (let p = fst (fetchMore (this, e) options); s' = snd (fetchMore (this, e) options) in
      p = fst (observable_fetchMore options e) \<and>
      snd s' = snd (observable_fetchMore options e) \<and>
      fst s' = this\<lparr>promise := p\<rparr> \<and>
      promise (fst s') = p \<and>
      result (fst s') = result this \<and>
      listeners (fst s') = listeners this \<and>
      subscription (fst s') = subscription this \<and>
      heap (snd s') = heap e \<and>
      added e (snd s') = [EngineFetchMore options])"
  by (simp add: Let_def refetch_def fetchMore_def observable_refetch_def observable_fetchMore_def
      new_promise_def added_def split_def)

theorem refetch_fetchMore_promise_witness:
  "fst (refetch (this0, env0) JUndefined) = 1 \<and>
   promise (fst (snd (refetch (this0, env0) JUndefined))) = 1 \<and>
   promise this0 = 0 \<and>
   fst (fetchMore (snd (refetch (this0, env0) JUndefined)) (JObj [])) = 2 \<and>
   promise (fst (snd (fetchMore (snd (refetch (this0, env0) JUndefined)) (JObj [])))) = 2"
  using refetch_fetchMore_promise [of this0 env0 JUndefined "JObj []"]
  by (simp add: Let_def this0_def env0_def refetch_def fetchMore_def observable_refetch_def
      observable_fetchMore_def new_promise_def split_def)


subsection \<open>Disposal\<close>

lemma concat_replicate_snoc: "concat (replicate n xs) @ xs = concat (replicate (Suc n) xs)"
  by (induction n) simp_all

lemma dispose_eq:
  "dispose (this, e) =
     (this, e\<lparr>trace := trace e @ Unsubscribe (subscription this) #
                (case onDispose this of None \<Rightarrow> [] | Some h \<Rightarrow> [OnDisposeCall h])\<rparr>)"
  by (simp add: dispose_def call_onDispose_def Let_def split: option.splits)

lemma dispose_funpow:
  "(dispose ^^ n) (this, e) =
     (this, e\<lparr>trace := trace e @ concat (replicate n (Unsubscribe (subscription this) #
                (case onDispose this of None \<Rightarrow> [] | Some h \<Rightarrow> [OnDisposeCall h])))\<rparr>)"
proof (induction n)
  case 0
  show ?case by simp
next
  case (Suc n)
  show ?case
    unfolding concat_replicate_snoc [symmetric]
    by (simp add: Suc dispose_eq)
qed

lemma hook_calls_append: "hook_calls (xs @ ys) = hook_calls xs @ hook_calls ys"
  by (induction xs rule: hook_calls.induct) simp_all

lemma hook_calls_dispose_effects:
  "hook_calls (concat (replicate n (Unsubscribe sub # (case hk of None \<Rightarrow> [] | Some h \<Rightarrow> [OnDisposeCall h])))) =
     (case hk of None \<Rightarrow> [] | Some h \<Rightarrow> replicate n h)"
  by (induction n) (simp_all add: hook_calls_append split: option.splits)

text \<open>
  C8 (as amended). Each call of \<open>dispose\<close> calls \<open>unsubscribe\<close> on the engine
  subscription and then the dispose hook, when the options gave one: these are its only
  effects, and no field of the coordinator or of the world other than the trace changes.
  There is no guard against a repeated call: \<open>n\<close> calls of \<open>dispose\<close> call the hook
  \<open>n\<close> times, so it is called exactly once when \<open>dispose\<close> is called once.
\<close>

theorem dispose_each_call:
  "fst (dispose (this, e)) = this \<and>
   snd (dispose (this, e)) = e\<lparr>trace := trace (snd (dispose (this, e)))\<rparr> \<and>
   added e (snd (dispose (this, e))) =
     Unsubscribe (subscription this) # (case onDispose this of None \<Rightarrow> [] | Some h \<Rightarrow> [OnDisposeCall h]) \<and>
   (\<forall>n. fst ((dispose ^^ n) (this, e)) = this \<and>
        hook_calls (added e (snd ((dispose ^^ n) (this, e)))) =
          (case onDispose this of None \<Rightarrow> [] | Some h \<Rightarrow> replicate n h))"
  by (simp add: dispose_eq dispose_funpow added_def hook_calls_dispose_effects)

theorem dispose_each_call_witness:
  "added env0 (snd (dispose (this0, env0))) = [Unsubscribe 0, OnDisposeCall 7] \<and>
   hook_calls (added env0 (snd ((dispose ^^ 1) (this0, env0)))) = [7] \<and>
   hook_calls (added env0 (snd ((dispose ^^ 3) (this0, env0)))) = [7, 7, 7]"
proof -
  note t = dispose_each_call [of this0 env0]
  from t have one: "added env0 (snd (dispose (this0, env0))) = [Unsubscribe 0, OnDisposeCall 7]"
    by (simp add: this0_def)
  from t have many: "hook_calls (added env0 (snd ((dispose ^^ n) (this0, env0)))) = replicate n 7" for n
    by (simp add: this0_def)
  show ?thesis
    using one many [of 1] many [of 3] by (simp add: numeral_3_eq_3)
qed

text \<open>
  C8 as stated fails: the hook is 7, and two calls of \<open>dispose\<close> call it twice.
\<close>

theorem dispose_twice_counterexample:
  "hook_calls (added env0 (snd (dispose (dispose (this0, env0))))) = [7, 7]"
  by (simp add: dispose_def call_onDispose_def this0_def env0_def added_def Let_def)

text \<open>
  The handlers never read the trace: started from any trace, a run of raw events makes
  the same changes and appends the same effects.
\<close>

lemma backfill_any_trace:
  "backfill this r (e\<lparr>trace := tr\<rparr>) = (backfill this r e)\<lparr>trace := tr\<rparr>"
  by (simp add: backfill_def)

lemma handleNext_any_trace:
  "\<exists>this1 e1 X. \<forall>tr. handleNext (this, e\<lparr>trace := tr\<rparr>) r = (this1, e1\<lparr>trace := tr @ X\<rparr>)"
proof (cases "equal (heap (backfill this r e) (result this)) (heap (backfill this r e) r)")
  case True
  then have "\<forall>tr. handleNext (this, e\<lparr>trace := tr\<rparr>) r = (this, (backfill this r e)\<lparr>trace := tr @ []\<rparr>)"
    by (simp add: handleNext_def Let_def backfill_any_trace)
  then show ?thesis by blast
next
  case False
  then have "\<forall>tr. handleNext (this, e\<lparr>trace := tr\<rparr>) r =
      (this\<lparr>result := r\<rparr>, (backfill this r e)\<lparr>trace := tr @ map (\<lambda>l. ListenerCall l r) (listeners this)\<rparr>)"
    by (simp add: handleNext_def Let_def backfill_any_trace deliver_def)
  then show ?thesis by blast
qed

lemma handleError_any_trace:
  "\<exists>this1 e1 X. \<forall>tr. handleError (this, e\<lparr>trace := tr\<rparr>) err = (this1, e1\<lparr>trace := tr @ X\<rparr>)"
proof -
  have "\<forall>tr. handleError (this, e\<lparr>trace := tr\<rparr>) err =
      (this\<lparr>result := next_ref e\<rparr>,
       (e\<lparr>heap := (heap e)(next_ref e := (heap e (result this))\<lparr>error := Some err, networkStatus := NS_error\<rparr>),
          next_ref := Suc (next_ref e)\<rparr>)
        \<lparr>trace := tr @ map (\<lambda>l. ListenerCall l (next_ref e)) (listeners this)\<rparr>)"
    by (simp add: handleError_def alloc_def Let_def deliver_def)
  then show ?thesis by blast
qed

lemma handle_any_trace:
  "\<exists>this1 e1 X. \<forall>tr. handle (this, e\<lparr>trace := tr\<rparr>) ev = (this1, e1\<lparr>trace := tr @ X\<rparr>)"
  by (cases ev) (simp_all add: handleNext_any_trace handleError_any_trace)

lemma run_any_trace:
  "\<exists>this1 e1 X. \<forall>tr. foldl handle (this, e\<lparr>trace := tr\<rparr>) evs = (this1, e1\<lparr>trace := tr @ X\<rparr>)"
proof (induction evs arbitrary: this e)
  case Nil
  have "\<forall>tr. foldl handle (this, e\<lparr>trace := tr\<rparr>) [] = (this, e\<lparr>trace := tr @ []\<rparr>)"
    by simp
  then show ?case by blast
next
  case (Cons ev evs)
  obtain this1 e1 X1 where
    step: "\<And>tr. handle (this, e\<lparr>trace := tr\<rparr>) ev = (this1, e1\<lparr>trace := tr @ X1\<rparr>)"
    using handle_any_trace [of this e ev] by blast
  obtain this2 e2 X2 where
    rest: "\<And>tr. foldl handle (this1, e1\<lparr>trace := tr\<rparr>) evs = (this2, e2\<lparr>trace := tr @ X2\<rparr>)"
    using Cons.IH [of this1 e1] by blast
  have "\<forall>tr. foldl handle (this, e\<lparr>trace := tr\<rparr>) (ev # evs) = (this2, e2\<lparr>trace := tr @ (X1 @ X2)\<rparr>)"
    by (simp add: step rest)
  then show ?case by blast
qed

text \<open>
  C9 (as amended). \<open>dispose\<close> leaves the listener set as it is and calls
  \<open>unsubscribe\<close> on the engine subscription, and it sets nothing that the handlers read: a sequence of raw events handled after \<open>dispose\<close> changes the
  coordinator and produces the effects it would have produced without it. In particular a
  raw error handled after \<open>dispose\<close> calls every registered listener.
\<close>

theorem dispose_leaves_handlers_active:
  "listeners (fst (dispose s)) = listeners (fst s) \<and>
   hd (added (snd s) (snd (dispose s))) = Unsubscribe (subscription (fst s)) \<and>
   (\<forall>evs. fst (foldl handle (dispose s) evs) = fst (foldl handle s evs) \<and>
      added (snd (dispose s)) (snd (foldl handle (dispose s) evs)) =
      added (snd s) (snd (foldl handle s evs))) \<and>
   (\<forall>err. listener_calls (added (snd (dispose s)) (snd (handleError (dispose s) err))) =
      map (\<lambda>l. (l, next_ref (snd s))) (listeners (fst s)))"
proof -
  obtain this e where s: "s = (this, e)"
    by (cases s)
  let ?D = "Unsubscribe (subscription this) #
              (case onDispose this of None \<Rightarrow> [] | Some h \<Rightarrow> [OnDisposeCall h])"
  have run: "fst (foldl handle (dispose s) evs) = fst (foldl handle s evs) \<and>
      added (snd (dispose s)) (snd (foldl handle (dispose s) evs)) =
      added (snd s) (snd (foldl handle s evs))" for evs
  proof -
    obtain this1 e1 X where
      any: "\<And>tr. foldl handle (this, e\<lparr>trace := tr\<rparr>) evs = (this1, e1\<lparr>trace := tr @ X\<rparr>)"
      using run_any_trace [of this e evs] by blast
    have a: "foldl handle (this, e) evs = (this1, e1\<lparr>trace := trace e @ X\<rparr>)"
      using any [of "trace e"] by simp
    have b: "foldl handle (this, e\<lparr>trace := trace e @ ?D\<rparr>) evs =
               (this1, e1\<lparr>trace := (trace e @ ?D) @ X\<rparr>)"
      using any [of "trace e @ ?D"] by simp
    show ?thesis
      by (simp add: s dispose_eq a b added_def)
  qed
  have err: "listener_calls (added (snd (dispose s)) (snd (handleError (dispose s) err))) =
      map (\<lambda>l. (l, next_ref (snd s))) (listeners (fst s))" for err
    by (simp add: s dispose_eq handleError_snd added_def listener_calls_map)
  have keep: "listeners (fst (dispose s)) = listeners (fst s)"
    by (simp add: s dispose_eq)
  have unsub: "hd (added (snd s) (snd (dispose s))) = Unsubscribe (subscription (fst s))"
    by (simp add: s dispose_eq added_def)
  show ?thesis
    using keep unsub run err by blast
qed

theorem dispose_leaves_handlers_active_witness:
  "listeners (fst (dispose (this0, env0))) = [10, 11] \<and>
   added (snd (dispose (this0, env0))) (snd (foldl handle (dispose (this0, env0)) [Next 3, Error ''E2''])) =
     added env0 (snd (foldl handle (this0, env0) [Next 3, Error ''E2'']))"
proof -
  note t = dispose_leaves_handlers_active [of "(this0, env0)"]
  from t have a: "listeners (fst (dispose (this0, env0))) = listeners (fst (this0, env0))"
    by blast
  from t have b:
    "added (snd (dispose (this0, env0))) (snd (foldl handle (dispose (this0, env0)) [Next 3, Error ''E2''])) =
     added (snd (this0, env0)) (snd (foldl handle (this0, env0) [Next 3, Error ''E2'']))"
    by blast
  show ?thesis
    using a b by (simp add: this0_def)
qed

text \<open>
  C9 as stated fails: after \<open>dispose\<close>, a raw result that differs from the current one
  and a raw error each reach both listeners.
\<close>

theorem dispose_then_events_counterexample:
  "listener_calls (added (snd (dispose (this0, env0)))
      (snd (foldl handle (dispose (this0, env0)) [Next 3, Error ''E2'']))) =
   [(10, 3), (11, 3), (10, 4), (11, 4)]"
  by (simp add: dispose_eq this0_def env0_def heap0_def handleNext_def backfill_def equal_def
      deliver_def handleError_def alloc_def added_def Let_def D0_def)


subsection \<open>The promise of the constructor\<close>

lemma firstChunk_next_promises:
  "promises (firstChunk_next q v e) =
     (if promises e q = Pending then (promises e)(q := Fulfilled v) else promises e)"
  by (simp add: firstChunk_next_def concast_unsubscribe_def resolve_def)

lemma firstChunk_next_observers:
  "concast_observers (firstChunk_next q v e) =
     filter (\<lambda>ob. ob \<noteq> FirstChunk q) (concast_observers e)"
  by (simp add: firstChunk_next_def concast_unsubscribe_def resolve_def set_delete_filter)

lemma firstChunk_error_promises:
  "promises (firstChunk_error q err e) =
     (if promises e q = Pending then (promises e)(q := Rejected err) else promises e)"
  by (simp add: firstChunk_error_def reject_def)

lemma firstChunk_error_observers:
  "concast_observers (firstChunk_error q err e) = concast_observers e"
  by (simp add: firstChunk_error_def reject_def)

lemma fold_next_promises:
  "promises (fold (observer_next v) xs e) p =
     (if FirstChunk p \<in> set xs \<and> promises e p = Pending then Fulfilled v else promises e p)"
proof (induction xs arbitrary: e)
  case Nil
  show ?case by simp
next
  case (Cons x xs)
  show ?case
  proof (cases x)
    case (FirstChunk q)
    then show ?thesis
      by (simp add: Cons.IH firstChunk_next_promises)
  next
    case (Other i)
    then show ?thesis
      by (simp add: Cons.IH)
  qed
qed

lemma fold_next_observers:
  "set (concast_observers (fold (observer_next v) xs e)) =
     set (concast_observers e) - {ob \<in> set xs. \<exists>q. ob = FirstChunk q}"
proof (induction xs arbitrary: e)
  case Nil
  show ?case by simp
next
  case (Cons x xs)
  show ?case
  proof (cases x)
    case (FirstChunk q)
    then show ?thesis
      by (auto simp: Cons.IH firstChunk_next_observers)
  next
    case (Other i)
    then show ?thesis
      by (auto simp: Cons.IH)
  qed
qed

lemma fold_error_promises:
  "promises (fold (observer_error err) xs e) p =
     (if FirstChunk p \<in> set xs \<and> promises e p = Pending then Rejected err else promises e p)"
proof (induction xs arbitrary: e)
  case Nil
  show ?case by simp
next
  case (Cons x xs)
  show ?case
  proof (cases x)
    case (FirstChunk q)
    then show ?thesis
      by (simp add: Cons.IH firstChunk_error_promises)
  next
    case (Other i)
    then show ?thesis
      by (simp add: Cons.IH)
  qed
qed

lemma wrapWithCustomPromise_eq:
  "wrapWithCustomPromise c e =
     (next_promise e,
      e\<lparr>promises := (promises e)(next_promise e := Pending),
        next_promise := Suc (next_promise e),
        concast_observers := set_add (FirstChunk (next_promise e)) (concast_observers e)\<rparr>)"
  by (simp add: wrapWithCustomPromise_def new_promise_def concast_subscribe_def)

lemma constructor_deferred:
  "concast obs = Some c \<Longrightarrow> query_has_defer obs \<Longrightarrow>
   constructor obs options e =
     Inr (\<lparr>result = getCurrentResult obs, promise = next_promise e, observable = obs,
           subscription = next_sub e, listeners = [], onDispose = options_onDispose options\<rparr>,
          e\<lparr>promises := (promises e)(next_promise e := Pending),
            next_promise := Suc (next_promise e),
            concast_observers := set_add (FirstChunk (next_promise e)) (concast_observers e),
            next_sub := Suc (next_sub e),
            trace := trace e @ [Subscribe (next_sub e)]\<rparr>)"
  by (simp add: constructor_def observable_subscribe_def wrapWithCustomPromise_eq Let_def)

lemma constructor_plain:
  "concast obs = Some c \<Longrightarrow> \<not> query_has_defer obs \<Longrightarrow>
   constructor obs options e =
     Inr (\<lparr>result = getCurrentResult obs, promise = concast_promise c, observable = obs,
           subscription = next_sub e, listeners = [], onDispose = options_onDispose options\<rparr>,
          e\<lparr>next_sub := Suc (next_sub e), trace := trace e @ [Subscribe (next_sub e)]\<rparr>)"
  by (simp add: constructor_def observable_subscribe_def Let_def)

lemma constructor_invariant:
  "concast obs = None \<Longrightarrow> constructor obs options e = Inl InvariantError"
  by (simp add: constructor_def observable_subscribe_def Let_def)

text \<open>
  C5. When the engine has a delivery stream, the constructor succeeds. For a query with a
  \<open>defer\<close> directive its promise is a new pending promise, and the one-shot observer
  of that promise is subscribed to the stream next to the observers already there; the
  observer's \<open>next\<close> resolves the promise with the chunk it receives and removes this
  observer and no other, its \<open>error\<close> rejects the promise. So the first chunk the
  stream emits resolves the promise, the other observers stay subscribed, a later chunk
  leaves the promise as it is, and a stream error before any chunk rejects it. For a
  query without the directive the promise is the stream's own promise: no promise is
  created and no observer is subscribed.
\<close>

theorem constructor_promise:
  assumes "concast obs = Some c"
  shows "\<exists>this e'. constructor obs options (e :: 'x env) = Inr (this, e') \<and>
     (query_has_defer obs \<longrightarrow>
        promise this = next_promise e \<and>
        promises e' (promise this) = Pending \<and>
        concast_observers e' = set_add (FirstChunk (promise this)) (concast_observers e) \<and>
        (\<forall>v (e2 :: 'x env). promises e2 (promise this) = Pending \<longrightarrow>
           promises (firstChunk_next (promise this) v e2) (promise this) = Fulfilled v \<and>
           concast_observers (firstChunk_next (promise this) v e2) =
             filter (\<lambda>ob. ob \<noteq> FirstChunk (promise this)) (concast_observers e2)) \<and>
        (\<forall>err (e2 :: 'x env). promises e2 (promise this) = Pending \<longrightarrow>
           promises (firstChunk_error (promise this) err e2) (promise this) = Rejected err) \<and>
        (\<forall>v. promises (concast_next v e') (promise this) = Fulfilled v \<and>
           FirstChunk (promise this) \<notin> set (concast_observers (concast_next v e')) \<and>
           (\<forall>i. Other i \<in> set (concast_observers e) \<longrightarrow>
              Other i \<in> set (concast_observers (concast_next v e'))) \<and>
           (\<forall>v2. promises (concast_next v2 (concast_next v e')) (promise this) = Fulfilled v)) \<and>
        (\<forall>err. promises (concast_error err e') (promise this) = Rejected err)) \<and>
     (\<not> query_has_defer obs \<longrightarrow>
        promise this = concast_promise c \<and>
        concast_observers e' = concast_observers e \<and>
        promises e' = promises e \<and>
        next_promise e' = next_promise e)"
proof (cases "query_has_defer obs")
  case False
  with assms show ?thesis
    by (simp add: constructor_plain)
next
  case True
  let ?p = "next_promise e"
  let ?e' = "e\<lparr>promises := (promises e)(?p := Pending),
            next_promise := Suc ?p,
            concast_observers := set_add (FirstChunk ?p) (concast_observers e),
            next_sub := Suc (next_sub e),
            trace := trace e @ [Subscribe (next_sub e)]\<rparr>"
  have mem: "FirstChunk ?p \<in> set (concast_observers ?e')"
    by (simp add: set_add_set)
  have pend: "promises ?e' ?p = Pending"
    by simp
  have first: "promises (concast_next v ?e') ?p = Fulfilled v" for v
    unfolding concast_next_def fold_next_promises using mem pend by simp
  have gone: "FirstChunk ?p \<notin> set (concast_observers (concast_next v ?e'))" for v
    unfolding concast_next_def fold_next_observers using mem by simp
  have others: "Other i \<in> set (concast_observers e) \<Longrightarrow>
      Other i \<in> set (concast_observers (concast_next v ?e'))" for i v
    unfolding concast_next_def fold_next_observers by (simp add: set_add_set)
  have later: "promises (concast_next v2 (concast_next v ?e')) ?p = Fulfilled v" for v v2
    unfolding concast_next_def [of v2] fold_next_promises using first [of v] by simp
  have failed: "promises (concast_error err ?e') ?p = Rejected err" for err
    unfolding concast_error_def fold_error_promises using mem pend by simp
  have bodies: "promises e2 ?p = Pending \<Longrightarrow>
      promises (firstChunk_next ?p v e2) ?p = Fulfilled v \<and>
      promises (firstChunk_error ?p err e2) ?p = Rejected err" for e2 :: "'x env" and v err
    by (simp add: firstChunk_next_promises firstChunk_error_promises)
  have "constructor obs options e =
      Inr (\<lparr>result = getCurrentResult obs, promise = ?p, observable = obs,
            subscription = next_sub e, listeners = [], onDispose = options_onDispose options\<rparr>, ?e')"
    using assms True by (rule constructor_deferred)
  then show ?thesis
    using True first gone others later failed bodies
    by (simp add: firstChunk_next_observers)
qed

text \<open>
  In the scenario the stream has the observer \<open>Other 0\<close> and the promise 0. Deferred:
  the promise is the new promise 1; chunk 2 resolves it and leaves \<open>Other 0\<close>
  subscribed, chunk 3 does not change it. Not deferred: the promise is promise 0.
\<close>

theorem constructor_promise_witness:
  "concast (obs0 True) = Some \<lparr>concast_promise = 0\<rparr> \<and>
   query_has_defer (obs0 True) \<and>
   (\<exists>this e'. constructor (obs0 True) \<lparr>options_onDispose = Some 7\<rparr> env0 = Inr (this, e') \<and>
      promise this = 1 \<and>
      concast_observers e' = [Other 0, FirstChunk 1] \<and>
      promises (concast_next 2 e') 1 = Fulfilled 2 \<and>
      concast_observers (concast_next 2 e') = [Other 0] \<and>
      promises (concast_next 3 (concast_next 2 e')) 1 = Fulfilled 2 \<and>
      promises (concast_error ''E1'' e') 1 = Rejected ''E1'') \<and>
   concast (obs0 False) = Some \<lparr>concast_promise = 0\<rparr> \<and>
   \<not> query_has_defer (obs0 False) \<and>
   (\<exists>this e'. constructor (obs0 False) \<lparr>options_onDispose = Some 7\<rparr> env0 = Inr (this, e') \<and>
      promise this = 0 \<and>
      concast_observers e' = [Other 0])"
proof -
  have d: "concast (obs0 True) = Some \<lparr>concast_promise = 0\<rparr>" "query_has_defer (obs0 True)"
    and n: "concast (obs0 False) = Some \<lparr>concast_promise = 0\<rparr>" "\<not> query_has_defer (obs0 False)"
    by (simp_all add: obs0_def)
  obtain this1 e1 where
    c1: "constructor (obs0 True) \<lparr>options_onDispose = Some 7\<rparr> env0 = Inr (this1, e1)"
    and p1: "promise this1 = next_promise env0"
    and o1: "concast_observers e1 = set_add (FirstChunk (promise this1)) (concast_observers env0)"
    and f1: "\<And>v. promises (concast_next v e1) (promise this1) = Fulfilled v"
    and l1: "\<And>v v2. promises (concast_next v2 (concast_next v e1)) (promise this1) = Fulfilled v"
    and r1: "\<And>err. promises (concast_error err e1) (promise this1) = Rejected err"
    using constructor_promise [OF d(1), of "\<lparr>options_onDispose = Some 7\<rparr>" env0] d(2) by blast
  obtain this2 e2 where
    c2: "constructor (obs0 False) \<lparr>options_onDispose = Some 7\<rparr> env0 = Inr (this2, e2)"
    and p2: "promise this2 = concast_promise \<lparr>concast_promise = 0\<rparr>"
    and o2: "concast_observers e2 = concast_observers env0"
    using constructor_promise [OF n(1), of "\<lparr>options_onDispose = Some 7\<rparr>" env0] n(2) by blast
  have p1': "promise this1 = 1"
    using p1 by (simp add: env0_def)
  have o1': "concast_observers e1 = [Other 0, FirstChunk 1]"
    using o1 by (simp add: p1' env0_def set_add_def)
  have g1: "concast_observers (concast_next 2 e1) = [Other 0]"
    by (simp add: concast_next_def o1' firstChunk_next_observers)
  have "constructor (obs0 True) \<lparr>options_onDispose = Some 7\<rparr> env0 = Inr (this1, e1) \<and>
      promise this1 = 1 \<and>
      concast_observers e1 = [Other 0, FirstChunk 1] \<and>
      promises (concast_next 2 e1) 1 = Fulfilled 2 \<and>
      concast_observers (concast_next 2 e1) = [Other 0] \<and>
      promises (concast_next 3 (concast_next 2 e1)) 1 = Fulfilled 2 \<and>
      promises (concast_error ''E1'' e1) 1 = Rejected ''E1''"
    using c1 p1' o1' g1 f1 [of 2] l1 [of 3 2] r1 [of "''E1''"] by simp
  moreover have "constructor (obs0 False) \<lparr>options_onDispose = Some 7\<rparr> env0 = Inr (this2, e2) \<and>
      promise this2 = 0 \<and> concast_observers e2 = [Other 0]"
    using c2 p2 o2 by (simp add: env0_def)
  ultimately show ?thesis
    using d n by blast
qed


end
